theory Spec2Isabelle
  imports Main "HOL-Library.AList"
begin

section \<open>Strings and characters\<close>

text \<open>
  The broker (\<^verbatim>\<open>src/server/server.cpp\<close>) works on \<^verbatim>\<open>std::string\<close>, modelled as
  \<^typ>\<open>string\<close> (a list of bytes). A position that the C++ library reports as
  \<^verbatim>\<open>npos\<close> is \<open>None\<close> here.
\<close>

definition blanks :: string where
  "blanks = [CHR '' '', CHR 0x09]"

definition newline :: char where
  "newline = CHR 0x0A"

text \<open>\<^verbatim>\<open>s.find_first_not_of(cs)\<close>: the first position whose byte is not in \<open>cs\<close>.\<close>

fun find_first_not_of :: "string \<Rightarrow> string \<Rightarrow> nat option" where
  "find_first_not_of [] cs = None"
| "find_first_not_of (x # xs) cs =
     (if x \<in> set cs then map_option Suc (find_first_not_of xs cs) else Some 0)"

text \<open>\<^verbatim>\<open>s.find_last_not_of(cs)\<close>: the last such position, found by scanning from the end.\<close>

definition find_last_not_of :: "string \<Rightarrow> string \<Rightarrow> nat option" where
  "find_last_not_of s cs =
     map_option (\<lambda>i. length s - 1 - i) (find_first_not_of (rev s) cs)"

text \<open>\<^verbatim>\<open>s.find(c)\<close>: the first position of the byte \<open>c\<close>.\<close>

fun find_char :: "string \<Rightarrow> char \<Rightarrow> nat option" where
  "find_char [] c = None"
| "find_char (x # xs) c = (if x = c then Some 0 else map_option Suc (find_char xs c))"

text \<open>
  \<^verbatim>\<open>s.substr(pos, n)\<close> and \<^verbatim>\<open>s.substr(pos)\<close>. Every call in the source has
  \<open>pos \<le> length s\<close>, so the \<^verbatim>\<open>out_of_range\<close> exception cannot arise.
\<close>

definition substr :: "string \<Rightarrow> nat \<Rightarrow> nat \<Rightarrow> string" where
  "substr s pos n = take n (drop pos s)"

definition substr_from :: "string \<Rightarrow> nat \<Rightarrow> string" where
  "substr_from s pos = drop pos s"

text \<open>The classification functions of \<^verbatim>\<open><cctype>\<close> in the "C" locale.\<close>

definition isalnum :: "char \<Rightarrow> bool" where
  "isalnum c =
     (let n = (of_char c :: nat)
      in (48 \<le> n \<and> n \<le> 57) \<or> (65 \<le> n \<and> n \<le> 90) \<or> (97 \<le> n \<and> n \<le> 122))"

definition isdigit :: "char \<Rightarrow> bool" where
  "isdigit c = (let n = (of_char c :: nat) in 48 \<le> n \<and> n \<le> 57)"

definition isspace :: "char \<Rightarrow> bool" where
  "isspace c = (let n = (of_char c :: nat) in n = 32 \<or> (9 \<le> n \<and> n \<le> 13))"

text \<open>The value of a \<^verbatim>\<open>char\<close> where \<^verbatim>\<open>char\<close> is signed: bytes from 0x80 are negative.\<close>

definition char_value :: "char \<Rightarrow> int" where
  "char_value c = (let n = int (of_char c) in if 128 \<le> n then n - 256 else n)"

text \<open>\<^verbatim>\<open>std::to_string(int)\<close>: decimal digits, with a leading minus sign.\<close>

fun digits :: "nat \<Rightarrow> string" where
  "digits n =
     (if n < 10 then [''0123456789'' ! n]
      else digits (n div 10) @ [''0123456789'' ! (n mod 10)])"

declare digits.simps [simp del]

definition to_string :: "int \<Rightarrow> string" where
  "to_string i = (if i < 0 then CHR ''-'' # digits (nat (- i)) else digits (nat i))"

section \<open>Sanitizing topic names and payloads\<close>

definition MAX_TOPIC_LENGTH :: nat where
  "MAX_TOPIC_LENGTH = 64"

definition MAX_MESSAGE_LENGTH :: nat where
  "MAX_MESSAGE_LENGTH = 1024"

text \<open>\<^verbatim>\<open>sanitize_topic\<close>: the empty string is the rejection value.\<close>

definition sanitize_topic :: "string \<Rightarrow> string" where
  "sanitize_topic topic =
     (case (find_first_not_of topic blanks, find_last_not_of topic blanks) of
        (Some first_ix, Some last_ix) \<Rightarrow>
          (let clean_topic = substr topic first_ix (last_ix - first_ix + 1)
           in if length clean_topic > MAX_TOPIC_LENGTH then []
              else if \<not> list_all isalnum clean_topic then []
              else clean_topic)
      | _ \<Rightarrow> [])"

text \<open>\<^verbatim>\<open>sanitize_message\<close>: the loop returns at the first byte outside 0x20..0x7E.\<close>

definition sanitize_message :: "string \<Rightarrow> string" where
  "sanitize_message message =
     (case (find_first_not_of message blanks, find_last_not_of message blanks) of
        (Some first_ix, Some last_ix) \<Rightarrow>
          (let clean_message = substr message first_ix (last_ix - first_ix + 1)
           in if length clean_message > MAX_MESSAGE_LENGTH then []
              else if list_ex (\<lambda>c. char_value c < 0x20 \<or> char_value c > 0x7E) clean_message
              then []
              else clean_message)
      | _ \<Rightarrow> [])"

section \<open>Parsing the arguments of CONNECT\<close>

text \<open>
  \<^verbatim>\<open>iss >> client_port >> client_name >> client_pid\<close> on a \<^verbatim>\<open>std::istringstream\<close>.
  Each extraction skips leading white space. An \<^verbatim>\<open>int\<close> is an optional sign and
  decimal digits; no digit, or a value outside the 32-bit range, sets the fail bit.
  A string is the longest run of bytes that are not white space; an empty run fails.
  Once one extraction has failed the later ones fail too, and whatever follows the
  third field is never looked at.
\<close>

definition INT_MIN :: int where
  "INT_MIN = - 2147483648"

definition INT_MAX :: int where
  "INT_MAX = 2147483647"

definition digits_value :: "string \<Rightarrow> int" where
  "digits_value ds = foldl (\<lambda>a c. 10 * a + (of_char c - 48)) 0 ds"

definition extract_int :: "string \<Rightarrow> (int \<times> string) option" where
  "extract_int s =
     (let s1 = dropWhile isspace s;
          neg = (s1 \<noteq> [] \<and> hd s1 = CHR ''-'');
          s2 = (if s1 \<noteq> [] \<and> (hd s1 = CHR ''-'' \<or> hd s1 = CHR ''+'') then tl s1 else s1);
          ds = takeWhile isdigit s2
      in if ds = [] then None
         else (let v = (if neg then - digits_value ds else digits_value ds)
               in if v < INT_MIN \<or> INT_MAX < v then None
                  else Some (v, dropWhile isdigit s2)))"

definition extract_string :: "string \<Rightarrow> (string \<times> string) option" where
  "extract_string s =
     (let s1 = dropWhile isspace s;
          tok = takeWhile (\<lambda>c. \<not> isspace c) s1
      in if tok = [] then None else Some (tok, dropWhile (\<lambda>c. \<not> isspace c) s1))"

definition parse_connect :: "string \<Rightarrow> (int \<times> string \<times> int) option" where
  "parse_connect args =
     (case extract_int args of
        None \<Rightarrow> None
      | Some (client_port, r1) \<Rightarrow>
          (case extract_string r1 of
             None \<Rightarrow> None
           | Some (client_name, r2) \<Rightarrow>
               (case extract_int r2 of
                  None \<Rightarrow> None
                | Some (client_pid, r3) \<Rightarrow> Some (client_port, client_name, client_pid))))"

section \<open>The broker's state\<close>

text \<open>
  A connection is the identity of a \<^verbatim>\<open>std::shared_ptr<tcp::socket>\<close>. The two
  \<^verbatim>\<open>unordered_map\<close>s are association lists read with \<^const>\<open>map_of\<close>; no operation
  of the source depends on their iteration order. A subscriber \<^verbatim>\<open>std::vector\<close> is a
  list. \<open>wire\<close> collects, in order, what \<^verbatim>\<open>boost::asio::write\<close> has written to
  which socket. \<open>events\<close> is the trace of the run: mutex acquisitions and releases,
  accesses to the two registries, and each command handed to the dispatcher.
  Standard output (\<^verbatim>\<open>log_action\<close>, the \<^verbatim>\<open>[received]\<close> line) is not modelled.
\<close>

type_synonym conn = nat

record ClientInfo =
  ci_socket :: conn
  ci_name :: string
  ci_pid :: int

datatype mutex = Client_mutex | Topic_mutex

datatype registry = Connected_clients | Topic_subscribers

datatype event =
    Acquire mutex
  | Release mutex
  | Access registry
  | Dispatch string string

record server =
  connected_clients :: "(conn \<times> ClientInfo) list"
  topic_subscribers :: "(string \<times> conn list) list"
  wire :: "(conn \<times> string) list"
  events :: "event list"

definition init :: server where
  "init = \<lparr>connected_clients = [], topic_subscribers = [], wire = [], events = []\<rparr>"

text \<open>
  How a handler ends: it returns, it leaves by a C++ exception, or it runs into
  undefined behaviour (after which the model says nothing more about the process).
\<close>

datatype outcome = Returned | Threw | Undefined

definition acquire :: "mutex \<Rightarrow> server \<Rightarrow> server" where
  "acquire m s = s\<lparr>events := events s @ [Acquire m]\<rparr>"

definition release :: "mutex \<Rightarrow> server \<Rightarrow> server" where
  "release m s = s\<lparr>events := events s @ [Release m]\<rparr>"

definition touch :: "registry \<Rightarrow> server \<Rightarrow> server" where
  "touch r s = s\<lparr>events := events s @ [Access r]\<rparr>"

text \<open>
  \<^verbatim>\<open>std::lock_guard\<close> from its declaration to the end of the function: the mutex is
  released when the body returns and when an exception unwinds through it.
\<close>

definition lock_guard ::
  "mutex \<Rightarrow> (server \<Rightarrow> outcome \<times> server) \<Rightarrow> server \<Rightarrow> outcome \<times> server" where
  "lock_guard m body s =
     (case body (acquire m s) of
        (Undefined, s1) \<Rightarrow> (Undefined, s1)
      | (r, s1) \<Rightarrow> (r, release m s1))"

text \<open>
  \<^verbatim>\<open>send_message\<close>: \<^verbatim>\<open>boost::asio::write\<close> of the message and a newline. \<open>broken\<close> is
  the set of sockets on which a write fails; a failed write throws
  \<^verbatim>\<open>boost::system::system_error\<close>, a \<^verbatim>\<open>std::exception\<close>.
\<close>

definition send_message :: "conn set \<Rightarrow> conn \<Rightarrow> string \<Rightarrow> server \<Rightarrow> outcome \<times> server" where
  "send_message broken socket message s =
     (if socket \<in> broken then (Threw, s)
      else (Returned, s\<lparr>wire := wire s @ [(socket, message @ [newline])]\<rparr>))"

text \<open>
  \<^verbatim>\<open>get_client_metadata\<close> looks the socket up in \<^verbatim>\<open>connected_clients\<close> and takes no
  lock of its own. The metadata it returns is only printed by \<^verbatim>\<open>log_action\<close>, so
  the model keeps the registry access and drops the value; the endpoint queries on
  the socket are taken to succeed.
\<close>

definition get_client_metadata :: "conn \<Rightarrow> server \<Rightarrow> server" where
  "get_client_metadata socket s = touch Connected_clients s"

definition subscribers_of :: "string \<Rightarrow> server \<Rightarrow> conn list" where
  "subscribers_of topic s =
     (case map_of (topic_subscribers s) topic of None \<Rightarrow> [] | Some v \<Rightarrow> v)"

section \<open>The command handlers\<close>

text \<open>
  \<^verbatim>\<open>handle_connect\<close>. The scan for a session of the same name runs over every entry of
  \<^verbatim>\<open>connected_clients\<close> and stops at the first hit; the name built from the pid
  is stored without a second scan. \<^verbatim>\<open>connected_clients[socket] = ...\<close> inserts or
  overwrites.
\<close>

definition handle_connect :: "conn set \<Rightarrow> conn \<Rightarrow> string \<Rightarrow> server \<Rightarrow> outcome \<times> server" where
  "handle_connect broken socket args =
     lock_guard Client_mutex (\<lambda>s.
       case parse_connect args of
         None \<Rightarrow> (Returned, get_client_metadata socket s)
       | Some (client_port, client_name, client_pid) \<Rightarrow>
           (let original_name = client_name;
                s1 = touch Connected_clients s;
                client_name1 =
                  (if list_ex (\<lambda>pair. ci_name (snd pair) = client_name) (connected_clients s1)
                   then original_name @ ''-'' @ to_string client_pid
                   else client_name);
                s2 = (touch Connected_clients s1)
                       \<lparr>connected_clients :=
                          AList.update socket
                            \<lparr>ci_socket = socket, ci_name = client_name1, ci_pid = client_pid\<rparr>
                            (connected_clients s1)\<rparr>;
                s3 = get_client_metadata socket s2
            in send_message broken socket (''[SERVER] Connected as '' @ client_name1) s3))"

text \<open>
  \<^verbatim>\<open>handle_disconnect\<close>. Everything happens inside
  \<^verbatim>\<open>if (it != connected_clients.end())\<close>: a socket without a session is left alone.
  \<^verbatim>\<open>erase(remove(...))\<close> on each vector is \<^const>\<open>removeAll\<close>.
\<close>

definition handle_disconnect :: "conn set \<Rightarrow> conn \<Rightarrow> string \<Rightarrow> server \<Rightarrow> outcome \<times> server" where
  "handle_disconnect broken socket args =
     lock_guard Client_mutex (\<lambda>s.
       (let s1 = touch Connected_clients s
        in case map_of (connected_clients s1) socket of
             None \<Rightarrow> (Returned, s1)
           | Some info \<Rightarrow>
               (let s2 = get_client_metadata socket s1;
                    s3 = acquire Topic_mutex s2;
                    s4 = (touch Topic_subscribers s3)
                           \<lparr>topic_subscribers :=
                              map (\<lambda>pair. (fst pair, removeAll socket (snd pair)))
                                (topic_subscribers s3)\<rparr>;
                    s5 = release Topic_mutex s4;
                    s6 = (touch Connected_clients s5)
                           \<lparr>connected_clients := AList.delete socket (connected_clients s5)\<rparr>
                in send_message broken socket ''[SERVER] Disconnected'' s6)))"

definition invalid_topic_reply :: string where
  "invalid_topic_reply =
     ''[SERVER_ERROR] Invalid topic. Only letters (A-Z, a-z), numbers (0-9), and max length of 64 are allowed.''"

definition invalid_message_reply :: string where
  "invalid_message_reply =
     ''[SERVER_ERROR] Invalid message. Only Base64 characters (A-Z, a-z, 0-9, +, /, =) and max length of 1024 are allowed.''"

text \<open>
  \<^verbatim>\<open>handle_subscribe\<close>. \<^verbatim>\<open>topic_subscribers[topic]\<close> creates an empty vector for a
  topic that has none; the socket is pushed to the back unless it is already there.
\<close>

definition handle_subscribe :: "conn set \<Rightarrow> conn \<Rightarrow> string \<Rightarrow> server \<Rightarrow> outcome \<times> server" where
  "handle_subscribe broken socket raw s =
     (let topic = sanitize_topic raw
      in if topic = [] then send_message broken socket invalid_topic_reply s
         else lock_guard Topic_mutex (\<lambda>s.
           (let subscribers = subscribers_of topic s;
                s1 = (touch Topic_subscribers s)
                       \<lparr>topic_subscribers :=
                          AList.update topic subscribers (topic_subscribers s)\<rparr>
            in if socket \<notin> set subscribers then
                 (let s2 = s1\<lparr>topic_subscribers :=
                                AList.update topic (subscribers @ [socket])
                                  (topic_subscribers s1)\<rparr>;
                      s3 = get_client_metadata socket s2
                  in send_message broken socket (''[SERVER] Subscribed to '' @ topic) s3)
               else send_message broken socket (''[SERVER] Already subscribed to '' @ topic) s1)) s)"

text \<open>
  \<^verbatim>\<open>handle_unsubscribe\<close>. The topic is looked up with \<^verbatim>\<open>find\<close>, which never inserts.
  \<^verbatim>\<open>remove_if\<close> leaves a vector without the socket as it was and then returns
  \<^verbatim>\<open>end()\<close>; otherwise the erase keeps the other subscribers in their order.
\<close>

definition not_subscribed_reply :: "string \<Rightarrow> string" where
  "not_subscribed_reply topic = ''[SERVER_ERROR] You are not subscribed to '' @ topic"

definition handle_unsubscribe :: "conn set \<Rightarrow> conn \<Rightarrow> string \<Rightarrow> server \<Rightarrow> outcome \<times> server" where
  "handle_unsubscribe broken socket raw s =
     (let topic = sanitize_topic raw
      in if topic = [] then send_message broken socket invalid_topic_reply s
         else lock_guard Topic_mutex (\<lambda>s.
           (let s1 = touch Topic_subscribers s
            in case map_of (topic_subscribers s1) topic of
                 None \<Rightarrow> send_message broken socket (not_subscribed_reply topic) s1
               | Some subscribers \<Rightarrow>
                   if subscribers = [] then
                     send_message broken socket (not_subscribed_reply topic) s1
                   else if socket \<notin> set subscribers then
                     send_message broken socket (not_subscribed_reply topic) s1
                   else
                     (let s2 = s1\<lparr>topic_subscribers :=
                                    AList.update topic (removeAll socket subscribers)
                                      (topic_subscribers s1)\<rparr>;
                          s3 = get_client_metadata socket s2
                      in send_message broken socket (''[SERVER] Unsubscribed from '' @ topic) s3))) s)"

text \<open>
  The fan-out loop of \<^verbatim>\<open>handle_publish\<close>:
  \<^verbatim>\<open>for (auto subscriber : it->second) { try { send_message(...); } catch (...) { erase } }\<close>.
  The range-based \<^verbatim>\<open>for\<close> fixes its end iterator on entry, so it makes as many steps
  as the vector had elements then (the fourth argument counts the steps left) and the
  step at position \<open>pos\<close> reads slot \<open>pos\<close> of the vector as it is now. The catch
  block erases from that same vector, which moves the later elements one slot down and
  shortens it; the loop is not told. A step whose slot lies behind the shortened vector
  reads a destroyed element: that is \<open>Undefined\<close>. (The C++ standard already
  invalidates the loop's iterators at the erase; the model follows what a contiguous
  vector does, which is the more generous reading.)
\<close>

fun fan_out ::
  "conn set \<Rightarrow> string \<Rightarrow> string \<Rightarrow> nat \<Rightarrow> nat \<Rightarrow> server \<Rightarrow> outcome \<times> server" where
  "fan_out broken topic message 0 pos s = (Returned, s)"
| "fan_out broken topic message (Suc k) pos s =
     (if pos < length (subscribers_of topic s) then
        (let subscriber = subscribers_of topic s ! pos
         in case send_message broken subscriber message s of
              (Threw, s1) \<Rightarrow>
                fan_out broken topic message k (Suc pos)
                  ((touch Topic_subscribers s1)
                     \<lparr>topic_subscribers :=
                        AList.update topic (removeAll subscriber (subscribers_of topic s1))
                          (topic_subscribers s1)\<rparr>)
            | (r, s1) \<Rightarrow> fan_out broken topic message k (Suc pos) s1)
      else (Undefined, s))"

definition handle_publish :: "conn set \<Rightarrow> conn \<Rightarrow> string \<Rightarrow> server \<Rightarrow> outcome \<times> server" where
  "handle_publish broken socket args s =
     (case find_char args (CHR '' '') of
        None \<Rightarrow>
          send_message broken socket
            ''[SERVER_ERROR] Invalid publish format! Topic or message missing.'' s
      | Some space \<Rightarrow>
          (let topic = sanitize_topic (substr args 0 space)
           in if topic = [] then send_message broken socket invalid_topic_reply s
              else
                (let payload = sanitize_message (substr_from args (space + 1))
                 in if payload = [] then send_message broken socket invalid_message_reply s
                    else lock_guard Topic_mutex (\<lambda>s.
                      (let s1 = touch Topic_subscribers s
                       in if subscribers_of topic s1 = [] then
                            send_message broken socket
                              (''[SERVER_ERROR] No subscribers for topic: '' @ topic) s1
                          else
                            (let s2 = get_client_metadata socket s1
                             in fan_out broken topic
                                  (''[Message] Topic: '' @ topic @ '' Data: '' @ payload)
                                  (length (subscribers_of topic s2)) 0 s2))) s)))"

section \<open>The read loop\<close>

text \<open>
  \<^verbatim>\<open>setup_command_handlers\<close> fills the table that \<^verbatim>\<open>client_handler\<close> searches.
\<close>

definition command_handlers ::
  "(string \<times> (conn set \<Rightarrow> conn \<Rightarrow> string \<Rightarrow> server \<Rightarrow> outcome \<times> server)) list" where
  "command_handlers =
     [(''CONNECT'', handle_connect),
      (''DISCONNECT'', handle_disconnect),
      (''SUBSCRIBE'', handle_subscribe),
      (''UNSUBSCRIBE'', handle_unsubscribe),
      (''PUBLISH'', handle_publish)]"

text \<open>
  What one \<^verbatim>\<open>read_some\<close> on the socket gives: up to 1024 bytes, end of stream, or
  another error.
\<close>

datatype read_event = Data string | Eof | Read_error

text \<open>
  How the thread of \<^verbatim>\<open>client_handler\<close> stands when the given reads are used up: still
  blocked in \<^verbatim>\<open>read_some\<close>, ended (end of stream, or an exception caught by the outer
  \<^verbatim>\<open>try\<close>), or lost to undefined behaviour.
\<close>

datatype thread_status = Reading | Ended | Crashed

text \<open>
  The body of the loop for one chunk: every newline byte is erased from the chunk, and
  the rest is cut at its first space into the command and its arguments.
\<close>

definition erase_newlines :: "string \<Rightarrow> string" where
  "erase_newlines chunk = filter (\<lambda>c. c \<noteq> newline) chunk"

definition split_command :: "string \<Rightarrow> string \<times> string" where
  "split_command message =
     (case find_char message (CHR '' '') of
        None \<Rightarrow> (message, [])
      | Some space1 \<Rightarrow> (substr message 0 space1, substr_from message (space1 + 1)))"

definition dispatch :: "conn set \<Rightarrow> conn \<Rightarrow> string \<Rightarrow> string \<Rightarrow> server \<Rightarrow> outcome \<times> server" where
  "dispatch broken socket command args s =
     (let s1 = s\<lparr>events := events s @ [Dispatch command args]\<rparr>
      in case map_of command_handlers command of
           Some handler \<Rightarrow> handler broken socket args s1
         | None \<Rightarrow>
             send_message broken socket (''[SERVER_ERROR] Unknown command: '' @ command) s1)"

fun client_handler ::
  "conn set \<Rightarrow> conn \<Rightarrow> read_event list \<Rightarrow> server \<Rightarrow> thread_status \<times> server" where
  "client_handler broken socket [] s = (Reading, s)"
| "client_handler broken socket (Eof # rest) s = (Ended, get_client_metadata socket s)"
| "client_handler broken socket (Read_error # rest) s = (Ended, s)"
| "client_handler broken socket (Data chunk # rest) s =
     (let message = erase_newlines chunk;
          command = fst (split_command message);
          args = snd (split_command message)
      in case dispatch broken socket command args s of
           (Returned, s1) \<Rightarrow> client_handler broken socket rest s1
         | (Threw, s1) \<Rightarrow> (Ended, s1)
         | (Undefined, s1) \<Rightarrow> (Crashed, s1))"

section \<open>Notions of the specification\<close>

text \<open>
  Trimming as the specification words it: leading and trailing spaces and tabs are
  dropped. It is written without positions, to be compared with the position
  arithmetic of the source.
\<close>

definition is_blank :: "char \<Rightarrow> bool" where
  "is_blank c = (c = CHR '' '' \<or> c = CHR 0x09)"

definition trim :: "string \<Rightarrow> string" where
  "trim s = rev (dropWhile is_blank (rev (dropWhile is_blank s)))"

text \<open>Printable ASCII: the bytes 0x20 to 0x7E.\<close>

definition printable :: "char \<Rightarrow> bool" where
  "printable c = (0x20 \<le> (of_char c :: nat) \<and> (of_char c :: nat) \<le> 0x7E)"

text \<open>A connection appears at most once in every topic's subscriber vector.\<close>

definition unique_subscribers :: "server \<Rightarrow> bool" where
  "unique_subscribers s = list_all (\<lambda>pair. distinct (snd pair)) (topic_subscribers s)"

text \<open>The connection is in no topic's subscriber vector.\<close>

definition subscribed_nowhere :: "conn \<Rightarrow> server \<Rightarrow> bool" where
  "subscribed_nowhere c s = list_all (\<lambda>pair. c \<notin> set (snd pair)) (topic_subscribers s)"

text \<open>The display names of the registered sessions, and the lines written to one socket.\<close>

definition names :: "server \<Rightarrow> string list" where
  "names s = map (\<lambda>pair. ci_name (snd pair)) (connected_clients s)"

text \<open>The display names of the sessions of the connections other than the given one.\<close>

definition other_names :: "conn \<Rightarrow> server \<Rightarrow> string list" where
  "other_names c s =
     map (\<lambda>pair. ci_name (snd pair)) (filter (\<lambda>pair. fst pair \<noteq> c) (connected_clients s))"

definition sent_to :: "conn \<Rightarrow> server \<Rightarrow> string list" where
  "sent_to c s = map snd (filter (\<lambda>pair. fst pair = c) (wire s))"

text \<open>The commands of a trace, in the order in which they reached the dispatcher.\<close>

fun commands :: "event list \<Rightarrow> (string \<times> string) list" where
  "commands [] = []"
| "commands (Dispatch command args # es) = (command, args) # commands es"
| "commands (e # es) = commands es"

text \<open>
  The locking discipline on a trace of one thread: \<open>guarded held es\<close> says that every
  registry access in \<open>es\<close> happens while the thread holds the mutex of that registry,
  \<open>held\<close> being the mutexes it holds at the start.
\<close>

fun mutex_of :: "registry \<Rightarrow> mutex" where
  "mutex_of Connected_clients = Client_mutex"
| "mutex_of Topic_subscribers = Topic_mutex"

fun guarded :: "mutex list \<Rightarrow> event list \<Rightarrow> bool" where
  "guarded held [] = True"
| "guarded held (Acquire m # es) = guarded (m # held) es"
| "guarded held (Release m # es) = guarded (removeAll m held) es"
| "guarded held (Access r # es) = (mutex_of r \<in> set held \<and> guarded held es)"
| "guarded held (Dispatch command args # es) = guarded held es"

section \<open>Scenarios\<close>

text \<open>Connections 1 and 2 subscribe to \<open>news\<close>; then connection 3 does, too.\<close>

definition two_subscribers :: server where
  "two_subscribers =
     snd (handle_subscribe {} 2 ''news'' (snd (handle_subscribe {} 1 ''news'' init)))"

definition three_subscribers :: server where
  "three_subscribers = snd (handle_subscribe {} 3 ''news'' two_subscribers)"

text \<open>
  Connection 1 registers as alice and subscribes to \<open>news\<close>; then its stream ends.
\<close>

definition alice_subscribed :: server where
  "alice_subscribed =
     snd (client_handler {} 1
       [Data (''CONNECT 1999 alice 10'' @ [newline]),
        Data (''SUBSCRIBE news'' @ [newline])] init)"

definition alice_eof :: server where
  "alice_eof = snd (client_handler {} 1 [Eof] alice_subscribed)"

text \<open>Connection 1 subscribes to \<open>news\<close> without a session and then sends DISCONNECT.\<close>

definition anonymous_disconnect :: server where
  "anonymous_disconnect =
     snd (client_handler {} 1
       [Data (''SUBSCRIBE news'' @ [newline]),
        Data (''DISCONNECT'' @ [newline])] init)"

text \<open>
  The line \<open>SUBSCRIBE news\<close> arriving whole, arriving in two reads, and two lines
  arriving in one read.
\<close>

definition line_in_one_read :: server where
  "line_in_one_read =
     snd (client_handler {} 1 [Data (''SUBSCRIBE news'' @ [newline])] init)"

definition line_in_two_reads :: server where
  "line_in_two_reads =
     snd (client_handler {} 1 [Data ''SUBSCRIBE ne'', Data (''ws'' @ [newline])] init)"

definition two_lines_in_one_read :: server where
  "two_lines_in_one_read =
     snd (client_handler {} 1
       [Data (''SUBSCRIBE a'' @ [newline] @ ''SUBSCRIBE b'' @ [newline])] init)"

text \<open>Three connections register as bob, one after the other, with the pids 100, 200 and 200.\<close>

definition bob_once :: server where
  "bob_once = snd (handle_connect {} 1 ''1999 bob 100'' init)"

definition bob_twice :: server where
  "bob_twice = snd (handle_connect {} 2 ''1999 bob 200'' bob_once)"

definition bob_thrice :: server where
  "bob_thrice = snd (handle_connect {} 3 ''1999 bob 200'' bob_twice)"

section \<open>Trimming by positions is trimming\<close>

lemma is_blank_blanks: "is_blank c = (c \<in> set blanks)"
  by (auto simp: is_blank_def blanks_def)

lemma find_first_not_of_conv:
  "find_first_not_of s cs =
     (if set s \<subseteq> set cs then None else Some (length (takeWhile (\<lambda>c. c \<in> set cs) s)))"
  by (induction s) auto

lemma find_last_not_of_conv:
  "find_last_not_of s cs =
     (if set s \<subseteq> set cs then None
      else Some (length s - 1 - length (takeWhile (\<lambda>c. c \<in> set cs) (rev s))))"
  by (simp add: find_last_not_of_def find_first_not_of_conv)

lemma dropWhile_keeps_other:
  assumes "\<not> (\<forall>x\<in>set s. P x)"
  shows "\<exists>x\<in>set (dropWhile P s). \<not> P x"
proof -
  have ne: "dropWhile P s \<noteq> []" using assms by simp
  then have "\<not> P (hd (dropWhile P s))" by (rule hd_dropWhile)
  moreover have "hd (dropWhile P s) \<in> set (dropWhile P s)" using ne by simp
  ultimately show ?thesis by blast
qed

lemma trim_Nil: "trim s = [] \<longleftrightarrow> set s \<subseteq> set blanks"
proof
  assume "trim s = []"
  then have "\<forall>x\<in>set (dropWhile is_blank s). is_blank x" by (simp add: trim_def)
  then have "\<forall>x\<in>set s. is_blank x" using dropWhile_keeps_other [of s is_blank] by blast
  then show "set s \<subseteq> set blanks" by (auto simp: is_blank_blanks)
next
  assume "set s \<subseteq> set blanks"
  then have "\<forall>x\<in>set s. is_blank x" by (auto simp: is_blank_blanks)
  then have e: "dropWhile is_blank s = []" by simp
  show "trim s = []" unfolding trim_def e by simp
qed

lemma takeWhile_rev_dropWhile:
  assumes "\<not> (\<forall>x\<in>set s. P x)"
  shows "takeWhile P (rev s) = takeWhile P (rev (dropWhile P s))"
proof -
  have ex: "\<exists>x\<in>set (rev (dropWhile P s)). \<not> P x"
    using dropWhile_keeps_other [OF assms] by simp
  have "rev s = rev (dropWhile P s) @ rev (takeWhile P s)"
    by (metis rev_append takeWhile_dropWhile_id)
  then show ?thesis using ex by (metis takeWhile_append1)
qed

lemma substr_trim:
  assumes "\<not> set s \<subseteq> set blanks"
  shows "substr s (length (takeWhile is_blank s))
           (length s - 1 - length (takeWhile is_blank (rev s)) - length (takeWhile is_blank s) + 1)
         = trim s"
proof -
  let ?a = "length (takeWhile is_blank s)"
  let ?ys = "dropWhile is_blank s"
  let ?b = "length (takeWhile is_blank (rev s))"
  have nall: "\<not> (\<forall>x\<in>set s. is_blank x)" using assms by (auto simp: is_blank_blanks)
  have b: "takeWhile is_blank (rev s) = takeWhile is_blank (rev ?ys)"
    using nall by (rule takeWhile_rev_dropWhile)
  have ne: "dropWhile is_blank (rev ?ys) \<noteq> []"
    using dropWhile_keeps_other [OF nall] by simp
  have len: "length ?ys = length s - ?a"
    by (simp add: dropWhile_eq_drop)
  have "length (rev ?ys) = ?b + length (dropWhile is_blank (rev ?ys))"
    by (metis b length_append takeWhile_dropWhile_id)
  then have lt: "?b < length ?ys" using ne by simp
  have "trim s = rev (drop ?b (rev ?ys))"
    unfolding trim_def b by (simp add: dropWhile_eq_drop)
  also have "\<dots> = take (length ?ys - ?b) ?ys"
    by (simp add: rev_drop)
  also have "length ?ys - ?b = length s - 1 - ?b - ?a + 1"
    using lt len by linarith
  finally show ?thesis by (simp add: substr_def dropWhile_eq_drop)
qed

lemma sanitize_topic_trim:
  "sanitize_topic raw =
     (if trim raw = [] \<or> 64 < length (trim raw) \<or> (\<exists>c\<in>set (trim raw). \<not> isalnum c)
      then [] else trim raw)"
proof (cases "set raw \<subseteq> set blanks")
  case True
  then show ?thesis
    by (simp add: sanitize_topic_def find_first_not_of_conv find_last_not_of_conv trim_Nil)
next
  case False
  then have "trim raw \<noteq> []" by (simp add: trim_Nil)
  with False show ?thesis
    using substr_trim [OF False]
    by (simp add: sanitize_topic_def find_first_not_of_conv find_last_not_of_conv
        is_blank_blanks [abs_def] MAX_TOPIC_LENGTH_def list_all_iff Let_def)
qed

lemma printable_char_value: "printable c \<longleftrightarrow> \<not> (char_value c < 0x20 \<or> char_value c > 0x7E)"
proof -
  have "(of_char c :: nat) < 256" by simp
  then show ?thesis
    unfolding printable_def char_value_def Let_def by (auto simp del: nat_of_char_less_256)
qed

lemma sanitize_message_trim:
  "sanitize_message raw =
     (if trim raw = [] \<or> 1024 < length (trim raw) \<or> (\<exists>c\<in>set (trim raw). \<not> printable c)
      then [] else trim raw)"
proof (cases "set raw \<subseteq> set blanks")
  case True
  then show ?thesis
    by (simp add: sanitize_message_def find_first_not_of_conv find_last_not_of_conv trim_Nil)
next
  case False
  then have "trim raw \<noteq> []" by (simp add: trim_Nil)
  with False show ?thesis
    using substr_trim [OF False]
    by (simp add: sanitize_message_def find_first_not_of_conv find_last_not_of_conv
        is_blank_blanks [abs_def] MAX_MESSAGE_LENGTH_def list_ex_iff Let_def
        printable_char_value)
qed

section \<open>Topic names\<close>

text \<open>
  C5. \<^verbatim>\<open>sanitize_topic\<close> trims leading and trailing spaces and tabs; it rejects (returns
  the empty string for) an empty trimmed result, a trimmed length above 64 and any
  character that is not alphanumeric, and returns the trimmed string otherwise. A
  single space, a name of 65 letters, \<open>topic!\<close> and \<open>My_Topic\<close> are rejected, and
  \<open>News\<close> between two spaces gives \<open>News\<close>.
\<close>

theorem sanitize_topic_spec:
  "sanitize_topic raw =
     (if trim raw = [] \<or> 64 < length (trim raw) \<or> (\<exists>c\<in>set (trim raw). \<not> isalnum c)
      then [] else trim raw)
   \<and> sanitize_topic '' '' = []
   \<and> sanitize_topic (replicate 65 (CHR ''a'')) = []
   \<and> sanitize_topic ''topic!'' = []
   \<and> sanitize_topic ''My_Topic'' = []
   \<and> sanitize_topic '' News '' = ''News''"
proof -
  have "sanitize_topic '' '' = []" by code_simp
  moreover have "sanitize_topic (replicate 65 (CHR ''a'')) = []" by code_simp
  moreover have "sanitize_topic ''topic!'' = []" by code_simp
  moreover have "sanitize_topic ''My_Topic'' = []" by code_simp
  moreover have "sanitize_topic '' News '' = ''News''" by code_simp
  ultimately show ?thesis using sanitize_topic_trim [of raw] by blast
qed

theorem sanitize_topic_spec_witness:
  "trim '' News '' = ''News'' \<and> sanitize_topic '' News '' = trim '' News ''"
proof -
  have t: "trim '' News '' = ''News''" by (simp add: trim_def is_blank_def)
  have "\<not> (\<exists>c\<in>set ''News''. \<not> isalnum c)" by (simp add: isalnum_def)
  then show ?thesis using sanitize_topic_spec [of "'' News ''"] unfolding t by simp
qed

section \<open>Payloads\<close>

text \<open>
  C6. \<^verbatim>\<open>sanitize_message\<close> trims leading and trailing spaces and tabs; it rejects (returns
  the empty string for) an empty trimmed payload, a trimmed length above 1024 and any
  byte outside 0x20..0x7E, and returns the trimmed payload otherwise. When the
  arguments of PUBLISH have a space and a valid topic before it, a rejected payload
  makes \<^verbatim>\<open>handle_publish\<close> do nothing but send the invalid-message reply to the
  publisher, and an accepted payload reaches the fan-out as its trimmed text.
\<close>

theorem publish_payload_validation:
  "sanitize_message raw =
     (if trim raw = [] \<or> 1024 < length (trim raw) \<or> (\<exists>c\<in>set (trim raw). \<not> printable c)
      then [] else trim raw)
   \<and> (find_char args (CHR '' '') = Some space \<longrightarrow>
        sanitize_topic (substr args 0 space) \<noteq> [] \<longrightarrow>
        sanitize_message (substr_from args (space + 1)) = [] \<longrightarrow>
        handle_publish broken socket args s = send_message broken socket invalid_message_reply s)
   \<and> (find_char args (CHR '' '') = Some space \<longrightarrow>
        sanitize_topic (substr args 0 space) \<noteq> [] \<longrightarrow>
        sanitize_message (substr_from args (space + 1)) \<noteq> [] \<longrightarrow>
        handle_publish broken socket args s =
          lock_guard Topic_mutex (\<lambda>s.
            if subscribers_of (sanitize_topic (substr args 0 space)) (touch Topic_subscribers s) = []
            then send_message broken socket
                   (''[SERVER_ERROR] No subscribers for topic: ''
                      @ sanitize_topic (substr args 0 space)) (touch Topic_subscribers s)
            else fan_out broken (sanitize_topic (substr args 0 space))
                   (''[Message] Topic: '' @ sanitize_topic (substr args 0 space)
                      @ '' Data: '' @ trim (substr_from args (space + 1)))
                   (length (subscribers_of (sanitize_topic (substr args 0 space))
                      (get_client_metadata socket (touch Topic_subscribers s))))
                   0 (get_client_metadata socket (touch Topic_subscribers s))) s)"
proof -
  have accepted: "sanitize_message p \<noteq> [] \<Longrightarrow> sanitize_message p = trim p" for p
    by (simp add: sanitize_message_trim split: if_splits)
  have rejected: "find_char args (CHR '' '') = Some space \<Longrightarrow>
        sanitize_topic (substr args 0 space) \<noteq> [] \<Longrightarrow>
        sanitize_message (substr_from args (space + 1)) = [] \<Longrightarrow>
        handle_publish broken socket args s = send_message broken socket invalid_message_reply s"
    by (simp add: handle_publish_def)
  have passed: "handle_publish broken socket args s =
          lock_guard Topic_mutex (\<lambda>s.
            if subscribers_of (sanitize_topic (substr args 0 space)) (touch Topic_subscribers s) = []
            then send_message broken socket
                   (''[SERVER_ERROR] No subscribers for topic: ''
                      @ sanitize_topic (substr args 0 space)) (touch Topic_subscribers s)
            else fan_out broken (sanitize_topic (substr args 0 space))
                   (''[Message] Topic: '' @ sanitize_topic (substr args 0 space)
                      @ '' Data: '' @ trim (substr_from args (space + 1)))
                   (length (subscribers_of (sanitize_topic (substr args 0 space))
                      (get_client_metadata socket (touch Topic_subscribers s))))
                   0 (get_client_metadata socket (touch Topic_subscribers s))) s"
    if "find_char args (CHR '' '') = Some space"
      and "sanitize_topic (substr args 0 space) \<noteq> []"
      and "sanitize_message (substr_from args (space + 1)) \<noteq> []"
    unfolding handle_publish_def Let_def
    using that accepted [OF that(3)] by (simp cong: if_cong)
  show ?thesis
    using sanitize_message_trim [of raw] rejected passed by blast
qed

theorem publish_payload_validation_witness:
  "find_char ''news   '' (CHR '' '') = Some 4
   \<and> sanitize_topic (substr ''news   '' 0 4) \<noteq> []
   \<and> sanitize_message (substr_from ''news   '' (4 + 1)) = []
   \<and> handle_publish {} 1 ''news   '' init = send_message {} 1 invalid_message_reply init
   \<and> find_char ''news  hi '' (CHR '' '') = Some 4
   \<and> sanitize_topic (substr ''news  hi '' 0 4) \<noteq> []
   \<and> sanitize_message (substr_from ''news  hi '' (4 + 1)) \<noteq> []
   \<and> trim (substr_from ''news  hi '' (4 + 1)) = ''hi''
   \<and> sent_to 2 (snd (handle_publish {} 3 ''news  hi '' two_subscribers)) =
        sent_to 2 two_subscribers @ [''[Message] Topic: news Data: hi'' @ [newline]]"
proof -
  have a: "find_char ''news   '' (CHR '' '') = Some 4" by code_simp
  have b: "sanitize_topic (substr ''news   '' 0 4) \<noteq> []" by code_simp
  have c: "sanitize_message (substr_from ''news   '' (4 + 1)) = []" by code_simp
  have d: "handle_publish {} 1 ''news   '' init = send_message {} 1 invalid_message_reply init"
    using a b c publish_payload_validation
      [where args = "''news   ''" and space = 4 and broken = "{}" and socket = 1 and s = init]
    by blast
  have a': "find_char ''news  hi '' (CHR '' '') = Some 4" by code_simp
  have b': "sanitize_topic (substr ''news  hi '' 0 4) \<noteq> []" by code_simp
  have c': "sanitize_message (substr_from ''news  hi '' (4 + 1)) \<noteq> []" by code_simp
  have t: "trim (substr_from ''news  hi '' (4 + 1)) = ''hi''" by code_simp
  have e: "handle_publish {} 3 ''news  hi '' two_subscribers =
          lock_guard Topic_mutex (\<lambda>s.
            if subscribers_of (sanitize_topic (substr ''news  hi '' 0 4)) (touch Topic_subscribers s) = []
            then send_message {} 3
                   (''[SERVER_ERROR] No subscribers for topic: ''
                      @ sanitize_topic (substr ''news  hi '' 0 4)) (touch Topic_subscribers s)
            else fan_out {} (sanitize_topic (substr ''news  hi '' 0 4))
                   (''[Message] Topic: '' @ sanitize_topic (substr ''news  hi '' 0 4)
                      @ '' Data: '' @ trim (substr_from ''news  hi '' (4 + 1)))
                   (length (subscribers_of (sanitize_topic (substr ''news  hi '' 0 4))
                      (get_client_metadata 3 (touch Topic_subscribers s))))
                   0 (get_client_metadata 3 (touch Topic_subscribers s))) two_subscribers"
    using a' b' c' publish_payload_validation
      [where args = "''news  hi ''" and space = 4 and broken = "{}" and socket = 3
         and s = two_subscribers]
    by blast
  have f: "sent_to 2 (snd (handle_publish {} 3 ''news  hi '' two_subscribers)) =
        sent_to 2 two_subscribers @ [''[Message] Topic: news Data: hi'' @ [newline]]"
    unfolding e t by code_simp
  show ?thesis using a b c d a' b' c' t f by blast
qed

section \<open>What the steps of a handler leave alone\<close>

lemmas step_defs = acquire_def release_def touch_def get_client_metadata_def

lemma send_message_fields:
  "connected_clients (snd (send_message broken c m s)) = connected_clients s"
  "topic_subscribers (snd (send_message broken c m s)) = topic_subscribers s"
  "wire (snd (send_message broken c m s)) = wire s @ (if c \<in> broken then [] else [(c, m @ [newline])])"
  "fst (send_message broken c m s) = (if c \<in> broken then Threw else Returned)"
  "events (snd (send_message broken c m s)) = events s"
  by (simp_all add: send_message_def)

lemma lock_guard_fields:
  "connected_clients (snd (lock_guard m body s)) = connected_clients (snd (body (acquire m s)))"
  "topic_subscribers (snd (lock_guard m body s)) = topic_subscribers (snd (body (acquire m s)))"
  "wire (snd (lock_guard m body s)) = wire (snd (body (acquire m s)))"
  "fst (lock_guard m body s) = fst (body (acquire m s))"
  by (auto simp: lock_guard_def release_def split: prod.splits outcome.splits)

lemma subscribers_of_simps:
  "subscribers_of t (acquire m s) = subscribers_of t s"
  "subscribers_of t (release m s) = subscribers_of t s"
  "subscribers_of t (touch r s) = subscribers_of t s"
  "subscribers_of t (get_client_metadata c s) = subscribers_of t s"
  "subscribers_of t (snd (send_message broken c msg s)) = subscribers_of t s"
  by (simp_all add: subscribers_of_def step_defs send_message_def)

lemma subscribers_of_update:
  "subscribers_of t (s\<lparr>topic_subscribers := AList.update t v al\<rparr>) = v"
  by (simp add: subscribers_of_def AList.update_conv')

lemma set_update_subset: "set (AList.update k v al) \<subseteq> insert (k, v) (set al)"
  by (induction al) auto

lemma list_all_update:
  "P (k, v) \<Longrightarrow> list_all P al \<Longrightarrow> list_all P (AList.update k v al)"
  using set_update_subset [of k v al] by (auto simp: list_all_iff)

lemma update_fresh: "map_of al k = None \<Longrightarrow> AList.update k v al = al @ [(k, v)]"
  by (induction al) (auto split: if_splits)

section \<open>Unsubscribing\<close>

text \<open>
  C8. For a valid topic name, \<^verbatim>\<open>handle_unsubscribe\<close> answers with the not-subscribed reply
  both when the topic is not in \<^verbatim>\<open>topic_subscribers\<close> and when the socket is not in the
  topic's vector; in both cases the two registries are as before, so no entry is
  created for a topic that had none.
\<close>

theorem unsubscribe_not_subscribed:
  assumes "sanitize_topic raw \<noteq> []"
    and "map_of (topic_subscribers s) (sanitize_topic raw) = None
         \<or> (\<exists>subscribers. map_of (topic_subscribers s) (sanitize_topic raw) = Some subscribers
              \<and> socket \<notin> set subscribers)"
  shows "topic_subscribers (snd (handle_unsubscribe broken socket raw s)) = topic_subscribers s
       \<and> connected_clients (snd (handle_unsubscribe broken socket raw s)) = connected_clients s
       \<and> wire (snd (handle_unsubscribe broken socket raw s)) =
           wire s @ (if socket \<in> broken then []
                     else [(socket, not_subscribed_reply (sanitize_topic raw) @ [newline])])"
  using assms
  by (auto simp: handle_unsubscribe_def Let_def lock_guard_fields send_message_fields step_defs
      split: option.splits)

theorem unsubscribe_not_subscribed_witness:
  "sanitize_topic ''ghost'' \<noteq> []
   \<and> map_of (topic_subscribers init) (sanitize_topic ''ghost'') = None
   \<and> topic_subscribers (snd (handle_unsubscribe {} 1 ''ghost'' init)) = []
   \<and> wire (snd (handle_unsubscribe {} 1 ''ghost'' init)) =
        [(1, ''[SERVER_ERROR] You are not subscribed to ghost'' @ [newline])]
   \<and> sanitize_topic ''news'' \<noteq> []
   \<and> map_of (topic_subscribers two_subscribers) (sanitize_topic ''news'') = Some [1, 2]
   \<and> 3 \<notin> set [1, 2 :: nat]
   \<and> topic_subscribers (snd (handle_unsubscribe {} 3 ''news'' two_subscribers)) =
        topic_subscribers two_subscribers"
proof -
  have a: "sanitize_topic ''ghost'' \<noteq> []" by code_simp
  have a': "sanitize_topic ''ghost'' = ''ghost''" by code_simp
  have b: "map_of (topic_subscribers init) (sanitize_topic ''ghost'') = None"
    by (simp add: init_def)
  have c: "sanitize_topic ''news'' \<noteq> []" by code_simp
  have d: "map_of (topic_subscribers two_subscribers) (sanitize_topic ''news'') = Some [1, 2]"
    by code_simp
  have e: "3 \<notin> set [1, 2 :: nat]" by simp
  have f: "\<exists>subscribers. map_of (topic_subscribers two_subscribers) (sanitize_topic ''news'')
              = Some subscribers \<and> 3 \<notin> set subscribers"
    using d e by blast
  show ?thesis
    using a b c d e
      unsubscribe_not_subscribed [OF a disjI1 [OF b], where socket = 1 and broken = "{}"]
      unsubscribe_not_subscribed [OF c disjI2 [OF f], where broken = "{}"]
    by (simp add: init_def a' not_subscribed_reply_def)
qed

section \<open>Registering\<close>

lemma map_of_names: "map_of (connected_clients s) c = Some info \<Longrightarrow> ci_name info \<in> set (names s)"
  by (force simp: names_def dest: map_of_SomeD)

lemma list_ex_names:
  "list_ex (\<lambda>pair. ci_name (snd pair) = nm) (connected_clients s) \<longleftrightarrow> nm \<in> set (names s)"
  by (auto simp: list_ex_iff names_def)

lemma handle_connect_parsed:
  assumes "parse_connect args = Some (port, nm, pid)"
  shows "connected_clients (snd (handle_connect broken socket args s)) =
           AList.update socket
             \<lparr>ci_socket = socket,
              ci_name = (if nm \<in> set (names s) then nm @ ''-'' @ to_string pid else nm),
              ci_pid = pid\<rparr> (connected_clients s)"
    and "wire (snd (handle_connect broken socket args s)) =
           wire s @ (if socket \<in> broken then []
                     else [(socket, ''[SERVER] Connected as ''
                              @ (if nm \<in> set (names s) then nm @ ''-'' @ to_string pid else nm)
                              @ [newline])])"
    and "topic_subscribers (snd (handle_connect broken socket args s)) = topic_subscribers s"
  using assms
  by (simp_all add: handle_connect_def lock_guard_fields send_message_fields Let_def step_defs
      list_ex_names names_def)

text \<open>
  C10. A well-formed CONNECT on a socket that already has a session is not rejected:
  the entry of the socket is overwritten with the new session, whose name is built as
  for any CONNECT. The scan sees the socket's own old entry, so a CONNECT under the
  session's current name stores that name with the pid appended.
\<close>

theorem reconnect_overwrites_session:
  assumes "map_of (connected_clients s) socket = Some old"
    and "parse_connect args = Some (port, nm, pid)"
  shows "map_of (connected_clients (snd (handle_connect broken socket args s))) socket =
           Some \<lparr>ci_socket = socket,
                 ci_name = (if nm \<in> set (names s) then nm @ ''-'' @ to_string pid else nm),
                 ci_pid = pid\<rparr>
       \<and> (nm = ci_name old \<longrightarrow>
            map_of (connected_clients (snd (handle_connect broken socket args s))) socket =
              Some \<lparr>ci_socket = socket, ci_name = nm @ ''-'' @ to_string pid, ci_pid = pid\<rparr>)
       \<and> wire (snd (handle_connect broken socket args s)) =
           wire s @ (if socket \<in> broken then []
                     else [(socket, ''[SERVER] Connected as ''
                              @ (if nm \<in> set (names s) then nm @ ''-'' @ to_string pid else nm)
                              @ [newline])])"
  using map_of_names [OF assms(1)]
  by (simp add: handle_connect_parsed [OF assms(2)] AList.update_conv')

theorem reconnect_overwrites_session_witness:
  "map_of (connected_clients bob_once) 1 = Some \<lparr>ci_socket = 1, ci_name = ''bob'', ci_pid = 100\<rparr>
   \<and> parse_connect ''1999 bob 100'' = Some (1999, ''bob'', 100)
   \<and> map_of (connected_clients (snd (handle_connect {} 1 ''1999 bob 100'' bob_once))) 1 =
        Some \<lparr>ci_socket = 1, ci_name = ''bob-100'', ci_pid = 100\<rparr>"
proof -
  have a: "map_of (connected_clients bob_once) 1 = Some \<lparr>ci_socket = 1, ci_name = ''bob'', ci_pid = 100\<rparr>"
    by code_simp
  have b: "parse_connect ''1999 bob 100'' = Some (1999, ''bob'', 100)" by code_simp
  have c: "to_string 100 = ''100''" by code_simp
  have d: "''bob'' \<in> set (names bob_once)" by code_simp
  show ?thesis
    using a b reconnect_overwrites_session [OF a b, where broken = "{}"] by (simp add: c d)
qed

lemma set_update_distinct_keys:
  "distinct (map fst al) \<Longrightarrow>
   set (AList.update k v al) = insert (k, v) (set (filter (\<lambda>pair. fst pair \<noteq> k) al))"
  by (induction al) (auto simp: rev_image_eqI)

lemma distinct_names_update:
  "distinct (map fst al) \<Longrightarrow>
   distinct (map g (AList.update k v al)) \<longleftrightarrow>
     distinct (map g (filter (\<lambda>pair. fst pair \<noteq> k) al))
     \<and> g (k, v) \<notin> set (map g (filter (\<lambda>pair. fst pair \<noteq> k) al))"
proof (induction al)
  case Nil
  then show ?case by simp
next
  case (Cons p al)
  show ?case
  proof (cases "fst p = k")
    case True
    then have "k \<notin> fst ` set al" using Cons.prems by auto
    then have "filter (\<lambda>pair. fst pair \<noteq> k) al = al"
      by (auto simp: filter_id_conv)
    then show ?thesis using True by auto
  next
    case False
    have d: "distinct (map fst al)" using Cons.prems by simp
    have "set (map g (AList.update k v al)) =
            insert (g (k, v)) (set (map g (filter (\<lambda>pair. fst pair \<noteq> k) al)))"
      using set_update_distinct_keys [OF d, of k v] by simp
    then show ?thesis using False Cons.IH [OF d] by auto
  qed
qed

lemma other_names_fresh:
  "map_of (connected_clients s) c = None \<Longrightarrow> other_names c s = names s"
proof -
  assume "map_of (connected_clients s) c = None"
  then have "c \<notin> fst ` set (connected_clients s)" by (simp add: map_of_eq_None_iff)
  then have "filter (\<lambda>pair. fst pair \<noteq> c) (connected_clients s) = connected_clients s"
    by (auto simp: filter_id_conv)
  then show ?thesis by (simp add: other_names_def names_def)
qed

text \<open>
  C4, as the code has it. A well-formed CONNECT stores the parsed name, or the name
  with a dash and the pid appended when some session already has the parsed name; the
  name so built is not checked again. After the registration, of a new connection or
  of one that had a session, no two sessions share a display name exactly when the
  names of the other connections' sessions were pairwise distinct and the stored name
  is not among them. Registering bob with pid 100 and bob with pid 200 gives the names
  bob and bob-200.
\<close>

theorem connect_single_collision_check:
  assumes "parse_connect args = Some (port, nm, pid)"
    and "distinct (map fst (connected_clients s))"
  shows "map_of (connected_clients (snd (handle_connect broken socket args s))) socket =
           Some \<lparr>ci_socket = socket,
                 ci_name = (if nm \<in> set (names s) then nm @ ''-'' @ to_string pid else nm),
                 ci_pid = pid\<rparr>
       \<and> (distinct (names (snd (handle_connect broken socket args s))) \<longleftrightarrow>
            distinct (other_names socket s)
            \<and> (if nm \<in> set (names s) then nm @ ''-'' @ to_string pid else nm)
                 \<notin> set (other_names socket s))
       \<and> (map_of (connected_clients s) socket = None \<longrightarrow> other_names socket s = names s)
       \<and> names bob_twice = [''bob'', ''bob-200'']"
proof -
  have "names bob_twice = [''bob'', ''bob-200'']" by code_simp
  moreover have "distinct (names (snd (handle_connect broken socket args s))) \<longleftrightarrow>
            distinct (other_names socket s)
            \<and> (if nm \<in> set (names s) then nm @ ''-'' @ to_string pid else nm)
                 \<notin> set (other_names socket s)"
    unfolding names_def other_names_def handle_connect_parsed(1) [OF assms(1)]
    using distinct_names_update [OF assms(2), where g = "\<lambda>pair. ci_name (snd pair)"
        and k = socket] by simp
  ultimately show ?thesis
    using other_names_fresh
    by (simp add: handle_connect_parsed [OF assms(1)] AList.update_conv')
qed

theorem connect_single_collision_check_witness:
  "parse_connect ''1999 bob 200'' = Some (1999, ''bob'', 200)
   \<and> distinct (map fst (connected_clients bob_once))
   \<and> distinct (other_names 2 bob_once)
   \<and> ''bob'' \<in> set (names bob_once)
   \<and> ''bob'' @ ''-'' @ to_string 200 \<notin> set (other_names 2 bob_once)
   \<and> distinct (names (snd (handle_connect {} 2 ''1999 bob 200'' bob_once)))
   \<and> distinct (map fst (connected_clients bob_twice))
   \<and> ''bob'' \<in> set (names bob_twice)
   \<and> ''bob'' @ ''-'' @ to_string 200 \<in> set (other_names 1 bob_twice)
   \<and> \<not> distinct (names (snd (handle_connect {} 1 ''1999 bob 200'' bob_twice)))"
proof -
  have a: "parse_connect ''1999 bob 200'' = Some (1999, ''bob'', 200)" by code_simp
  have b: "distinct (map fst (connected_clients bob_once))" by code_simp
  have c: "distinct (other_names 2 bob_once)" by code_simp
  have d: "''bob'' \<in> set (names bob_once)" by code_simp
  have e: "''bob'' @ ''-'' @ to_string 200 \<notin> set (other_names 2 bob_once)" by code_simp
  have b': "distinct (map fst (connected_clients bob_twice))" by code_simp
  have d': "''bob'' \<in> set (names bob_twice)" by code_simp
  have e': "''bob'' @ ''-'' @ to_string 200 \<in> set (other_names 1 bob_twice)" by code_simp
  have f: "distinct (names (snd (handle_connect {} 2 ''1999 bob 200'' bob_once)))"
    using c d e connect_single_collision_check [OF a b, where socket = 2 and broken = "{}"]
    by simp
  have g: "\<not> distinct (names (snd (handle_connect {} 1 ''1999 bob 200'' bob_twice)))"
    using d' e' connect_single_collision_check [OF a b', where socket = 1 and broken = "{}"]
    by simp
  show ?thesis using a b c d e f b' d' e' g by blast
qed

text \<open>
  The invariant claimed in C4 for every sequence of registrations fails: registering
  bob three times, with the pids 100, 200 and 200, leaves two sessions named bob-200.
\<close>

theorem connect_names_counterexample:
  "names bob_thrice = [''bob'', ''bob-200'', ''bob-200''] \<and> \<not> distinct (names bob_thrice)"
proof -
  have "names bob_thrice = [''bob'', ''bob-200'', ''bob-200'']" by code_simp
  then show ?thesis by simp
qed

section \<open>Subscriber vectors hold no connection twice\<close>

lemma unique_subscribers_of:
  "unique_subscribers s \<Longrightarrow> distinct (subscribers_of t s)"
  by (force simp: unique_subscribers_def subscribers_of_def list_all_iff
      split: option.splits dest: map_of_SomeD)

lemma unique_subscribers_cong:
  "topic_subscribers s' = topic_subscribers s \<Longrightarrow> unique_subscribers s' = unique_subscribers s"
  by (simp add: unique_subscribers_def)

lemma unique_subscribers_lock_guard:
  "unique_subscribers (snd (lock_guard m body s)) = unique_subscribers (snd (body (acquire m s)))"
  by (rule unique_subscribers_cong) (simp add: lock_guard_fields)

lemma unique_subscribers_send:
  "unique_subscribers (snd (send_message broken c msg s)) = unique_subscribers s"
  by (rule unique_subscribers_cong) (simp add: send_message_fields)

lemma unique_subscribers_steps:
  "unique_subscribers (acquire m s) = unique_subscribers s"
  "unique_subscribers (release m s) = unique_subscribers s"
  "unique_subscribers (touch r s) = unique_subscribers s"
  "unique_subscribers (get_client_metadata c s) = unique_subscribers s"
  by (simp_all add: unique_subscribers_def step_defs)

lemma unique_fan_out:
  "unique_subscribers s \<Longrightarrow> unique_subscribers (snd (fan_out broken t msg k pos s))"
proof (induction k arbitrary: pos s)
  case 0
  then show ?case by simp
next
  case (Suc k)
  show ?case
  proof (cases "pos < length (subscribers_of t s)")
    case False
    then show ?thesis using Suc.prems by simp
  next
    case True
    let ?c = "subscribers_of t s ! pos"
    show ?thesis
    proof (cases "?c \<in> broken")
      case False
      have "unique_subscribers (s\<lparr>wire := wire s @ [(?c, msg @ [newline])]\<rparr>)"
        using Suc.prems by (simp add: unique_subscribers_def)
      from Suc.IH [OF this] show ?thesis
        using True False by (simp add: send_message_def)
    next
      case broken: True
      have "distinct (removeAll ?c (subscribers_of t s))"
        using unique_subscribers_of [OF Suc.prems] by (simp add: distinct_removeAll)
      then have "unique_subscribers ((touch Topic_subscribers s)
                   \<lparr>topic_subscribers :=
                      AList.update t (removeAll ?c (subscribers_of t s)) (topic_subscribers s)\<rparr>)"
        using Suc.prems
        by (simp add: unique_subscribers_def list_all_update touch_def)
      from Suc.IH [OF this] show ?thesis
        using True broken by (simp add: send_message_def subscribers_of_simps touch_def)
    qed
  qed
qed

lemma subscribe_topics:
  "topic_subscribers (snd (handle_subscribe broken c raw s)) =
     (if sanitize_topic raw = [] then topic_subscribers s
      else AList.update (sanitize_topic raw)
             (if c \<in> set (subscribers_of (sanitize_topic raw) s)
              then subscribers_of (sanitize_topic raw) s
              else subscribers_of (sanitize_topic raw) s @ [c])
             (topic_subscribers s))"
  by (auto simp: handle_subscribe_def Let_def lock_guard_fields send_message_fields step_defs
      subscribers_of_def split: option.splits)

lemma unsubscribe_topics:
  "topic_subscribers (snd (handle_unsubscribe broken c raw s)) =
     (if sanitize_topic raw \<noteq> [] \<and> c \<in> set (subscribers_of (sanitize_topic raw) s)
      then AList.update (sanitize_topic raw) (removeAll c (subscribers_of (sanitize_topic raw) s))
             (topic_subscribers s)
      else topic_subscribers s)"
  by (auto simp: handle_unsubscribe_def Let_def lock_guard_fields send_message_fields step_defs
      subscribers_of_def split: option.splits)

lemma disconnect_topics:
  "topic_subscribers (snd (handle_disconnect broken c args s)) =
     (if map_of (connected_clients s) c = None then topic_subscribers s
      else map (\<lambda>pair. (fst pair, removeAll c (snd pair))) (topic_subscribers s))"
  by (auto simp: handle_disconnect_def Let_def lock_guard_fields send_message_fields step_defs
      split: option.splits)

lemma disconnect_clients:
  "connected_clients (snd (handle_disconnect broken c args s)) =
     AList.delete c (connected_clients s)"
  by (auto simp: handle_disconnect_def Let_def lock_guard_fields send_message_fields step_defs
      split: option.splits intro!: AList.delete_id [symmetric] simp: map_of_eq_None_iff)

lemma unique_subscribe:
  assumes "unique_subscribers s"
  shows "unique_subscribers (snd (handle_subscribe broken c raw s))"
  using assms unique_subscribers_of [OF assms, of "sanitize_topic raw"]
  by (simp add: unique_subscribers_def subscribe_topics list_all_update)

lemma unique_unsubscribe:
  assumes "unique_subscribers s"
  shows "unique_subscribers (snd (handle_unsubscribe broken c raw s))"
  using assms unique_subscribers_of [OF assms, of "sanitize_topic raw"]
  by (simp add: unique_subscribers_def unsubscribe_topics list_all_update distinct_removeAll)

lemma unique_publish:
  assumes "unique_subscribers s"
  shows "unique_subscribers (snd (handle_publish broken c args s))"
  using assms
  by (auto simp: handle_publish_def Let_def unique_subscribers_lock_guard
      unique_subscribers_send unique_subscribers_steps unique_fan_out split: option.splits)

lemma unique_disconnect:
  assumes "unique_subscribers s"
  shows "unique_subscribers (snd (handle_disconnect broken c args s))"
  using assms
  by (auto simp: unique_subscribers_def disconnect_topics list_all_iff distinct_removeAll)

lemma subscribe_member:
  assumes "sanitize_topic raw \<noteq> []"
  shows "\<exists>v. map_of (topic_subscribers (snd (handle_subscribe broken c raw s))) (sanitize_topic raw)
              = Some v \<and> c \<in> set v"
  using assms
  by (auto simp: handle_subscribe_def Let_def lock_guard_fields send_message_fields step_defs
      AList.update_conv' subscribers_of_def split: option.splits)

lemma subscribe_again:
  assumes "sanitize_topic raw \<noteq> []"
    and "map_of (topic_subscribers s) (sanitize_topic raw) = Some v" and "c \<in> set v"
  shows "topic_subscribers (snd (handle_subscribe broken c raw s)) = topic_subscribers s"
    and "connected_clients (snd (handle_subscribe broken c raw s)) = connected_clients s"
    and "wire (snd (handle_subscribe broken c raw s)) =
           wire s @ (if c \<in> broken then []
                     else [(c, ''[SERVER] Already subscribed to '' @ sanitize_topic raw @ [newline])])"
  using assms
  by (simp_all add: handle_subscribe_def Let_def lock_guard_fields send_message_fields step_defs
      subscribers_of_def AList.update_triv)

text \<open>
  C7. After a subscription to a valid topic, a second SUBSCRIBE of the same connection
  to the same topic gets the already-subscribed reply and leaves \<^verbatim>\<open>topic_subscribers\<close>
  as it is. Subscribe, unsubscribe, publish and disconnect each keep every subscriber
  vector free of duplicates.
\<close>

theorem subscribe_twice_unique_subscribers:
  "(sanitize_topic raw \<noteq> [] \<longrightarrow>
      topic_subscribers (snd (handle_subscribe broken_b c raw (snd (handle_subscribe broken_a c raw s))))
        = topic_subscribers (snd (handle_subscribe broken_a c raw s))
      \<and> wire (snd (handle_subscribe broken_b c raw (snd (handle_subscribe broken_a c raw s))))
        = wire (snd (handle_subscribe broken_a c raw s))
            @ (if c \<in> broken_b then []
               else [(c, ''[SERVER] Already subscribed to '' @ sanitize_topic raw @ [newline])]))
   \<and> (unique_subscribers s \<longrightarrow>
        unique_subscribers (snd (handle_subscribe broken c raw s))
      \<and> unique_subscribers (snd (handle_unsubscribe broken c raw s))
      \<and> unique_subscribers (snd (handle_publish broken c args s))
      \<and> unique_subscribers (snd (handle_disconnect broken c args s)))"
proof -
  have "topic_subscribers (snd (handle_subscribe broken_b c raw (snd (handle_subscribe broken_a c raw s))))
        = topic_subscribers (snd (handle_subscribe broken_a c raw s))
      \<and> wire (snd (handle_subscribe broken_b c raw (snd (handle_subscribe broken_a c raw s))))
        = wire (snd (handle_subscribe broken_a c raw s))
            @ (if c \<in> broken_b then []
               else [(c, ''[SERVER] Already subscribed to '' @ sanitize_topic raw @ [newline])])"
    if valid: "sanitize_topic raw \<noteq> []"
  proof -
    obtain v where v: "map_of (topic_subscribers (snd (handle_subscribe broken_a c raw s)))
                         (sanitize_topic raw) = Some v" "c \<in> set v"
      using subscribe_member [OF valid] by blast
    show ?thesis
      using subscribe_again [OF valid v] by simp
  qed
  then show ?thesis
    using unique_subscribe unique_unsubscribe unique_publish unique_disconnect by blast
qed

theorem subscribe_twice_unique_subscribers_witness:
  "sanitize_topic ''news'' \<noteq> [] \<and> unique_subscribers two_subscribers
   \<and> topic_subscribers (snd (handle_subscribe {} 1 ''news'' (snd (handle_subscribe {} 1 ''news'' two_subscribers))))
        = topic_subscribers (snd (handle_subscribe {} 1 ''news'' two_subscribers))
   \<and> unique_subscribers (snd (handle_publish {1} 1 ''news hi'' two_subscribers))"
proof -
  have a: "sanitize_topic ''news'' \<noteq> []" by code_simp
  have b: "unique_subscribers two_subscribers" by code_simp
  show ?thesis
    using a b subscribe_twice_unique_subscribers
      [where raw = "''news''" and broken_a = "{}" and broken_b = "{}" and c = 1
         and s = two_subscribers and broken = "{1}" and args = "''news hi''"]
    by blast
qed

section \<open>Disconnecting\<close>

lemma sent_to_steps:
  "sent_to c (acquire m s) = sent_to c s"
  "sent_to c (release m s) = sent_to c s"
  "sent_to c (touch r s) = sent_to c s"
  "sent_to c (get_client_metadata d s) = sent_to c s"
  by (simp_all add: sent_to_def step_defs)

lemma sent_to_send:
  "sent_to c (snd (send_message broken d msg s)) =
     sent_to c s @ (if d = c \<and> d \<notin> broken then [msg @ [newline]] else [])"
  by (simp add: sent_to_def send_message_def)

lemma sent_to_lock_guard:
  "sent_to c (snd (lock_guard m body s)) = sent_to c (snd (body (acquire m s)))"
  by (simp add: sent_to_def lock_guard_fields)

lemma fan_out_not_subscribed:
  "c \<notin> set (subscribers_of t s) \<Longrightarrow> sent_to c (snd (fan_out broken t msg k pos s)) = sent_to c s"
proof (induction k arbitrary: pos s)
  case 0
  then show ?case by simp
next
  case (Suc k)
  show ?case
  proof (cases "pos < length (subscribers_of t s)")
    case False
    then show ?thesis by simp
  next
    case True
    let ?d = "subscribers_of t s ! pos"
    have neq: "?d \<noteq> c" using True Suc.prems by (metis nth_mem)
    show ?thesis
    proof (cases "?d \<in> broken")
      case False
      let ?s1 = "s\<lparr>wire := wire s @ [(?d, msg @ [newline])]\<rparr>"
      have "c \<notin> set (subscribers_of t ?s1)" using Suc.prems by (simp add: subscribers_of_def)
      from Suc.IH [OF this] show ?thesis
        using True False neq by (simp add: send_message_def sent_to_def)
    next
      case broken: True
      let ?s1 = "(touch Topic_subscribers s)\<lparr>topic_subscribers :=
                   AList.update t (removeAll ?d (subscribers_of t s)) (topic_subscribers s)\<rparr>"
      have "c \<notin> set (subscribers_of t ?s1)"
        using Suc.prems by (simp add: subscribers_of_update)
      from Suc.IH [OF this] show ?thesis
        using True broken by (simp add: send_message_def subscribers_of_simps touch_def sent_to_def)
    qed
  qed
qed

lemma subscribed_nowhere_of:
  assumes "subscribed_nowhere c s"
  shows "c \<notin> set (subscribers_of t s)"
proof (cases "map_of (topic_subscribers s) t")
  case None
  then show ?thesis by (simp add: subscribers_of_def)
next
  case (Some v)
  then have "(t, v) \<in> set (topic_subscribers s)" by (rule map_of_SomeD)
  then have "c \<notin> set v" using assms by (auto simp: subscribed_nowhere_def list_all_iff)
  then show ?thesis using Some by (simp add: subscribers_of_def)
qed

lemma publish_not_subscribed:
  assumes "subscribed_nowhere c s" and "p \<noteq> c"
  shows "sent_to c (snd (handle_publish broken p args s)) = sent_to c s"
proof -
  have "c \<notin> set (subscribers_of t (get_client_metadata p (touch Topic_subscribers (acquire Topic_mutex s))))" for t
    using subscribed_nowhere_of [OF assms(1)] by (simp add: subscribers_of_simps)
  then show ?thesis
    using assms(2)
    by (auto simp: handle_publish_def Let_def sent_to_lock_guard sent_to_send sent_to_steps
        fan_out_not_subscribed split: option.splits)
qed

text \<open>
  C2, as the code has it. For a connection with a registered session, DISCONNECT removes
  the connection from \<^verbatim>\<open>connected_clients\<close> and from every subscriber vector, and a
  PUBLISH by another connection that follows writes nothing to it. For a connection
  without a session, DISCONNECT changes neither registry and writes nothing.
\<close>

theorem disconnect_teardown:
  "(map_of (connected_clients s) c = Some info \<longrightarrow>
      map_of (connected_clients (snd (handle_disconnect broken c args s))) c = None
    \<and> subscribed_nowhere c (snd (handle_disconnect broken c args s))
    \<and> (p \<noteq> c \<longrightarrow>
         sent_to c (snd (handle_publish broken_b p pargs (snd (handle_disconnect broken c args s))))
           = sent_to c (snd (handle_disconnect broken c args s))))
   \<and> (map_of (connected_clients s) c = None \<longrightarrow>
        connected_clients (snd (handle_disconnect broken c args s)) = connected_clients s
      \<and> topic_subscribers (snd (handle_disconnect broken c args s)) = topic_subscribers s
      \<and> wire (snd (handle_disconnect broken c args s)) = wire s)"
proof -
  have gone: "subscribed_nowhere c (snd (handle_disconnect broken c args s))"
    if "map_of (connected_clients s) c = Some info"
    using that by (simp add: subscribed_nowhere_def disconnect_topics list_all_iff)
  have "wire (snd (handle_disconnect broken c args s)) = wire s"
    if "map_of (connected_clients s) c = None"
    using that by (simp add: handle_disconnect_def Let_def lock_guard_fields step_defs)
  moreover have "connected_clients (snd (handle_disconnect broken c args s)) = connected_clients s"
    if "map_of (connected_clients s) c = None"
    using that by (simp add: handle_disconnect_def Let_def lock_guard_fields step_defs)
  ultimately show ?thesis
    using gone publish_not_subscribed [OF gone]
    by (simp add: disconnect_clients disconnect_topics AList.delete_conv')
qed

theorem disconnect_teardown_witness:
  "map_of (connected_clients alice_subscribed) 1 =
     Some \<lparr>ci_socket = 1, ci_name = ''alice'', ci_pid = 10\<rparr>
   \<and> (2::nat) \<noteq> 1
   \<and> map_of (connected_clients (snd (handle_disconnect {} 1 [] alice_subscribed))) 1 = None
   \<and> subscribed_nowhere 1 (snd (handle_disconnect {} 1 [] alice_subscribed))
   \<and> sent_to 1 (snd (handle_publish {} 2 ''news hi'' (snd (handle_disconnect {} 1 [] alice_subscribed))))
        = sent_to 1 (snd (handle_disconnect {} 1 [] alice_subscribed))
   \<and> map_of (connected_clients anonymous_disconnect) 1 = None
   \<and> topic_subscribers (snd (handle_disconnect {} 1 [] anonymous_disconnect)) =
        topic_subscribers anonymous_disconnect"
proof -
  have a: "map_of (connected_clients alice_subscribed) 1 =
     Some \<lparr>ci_socket = 1, ci_name = ''alice'', ci_pid = 10\<rparr>" by code_simp
  have b: "map_of (connected_clients anonymous_disconnect) 1 = None" by code_simp
  show ?thesis
    using a b
      disconnect_teardown [where s = alice_subscribed and c = 1 and broken = "{}" and args = "[]"
        and p = 2 and broken_b = "{}" and pargs = "''news hi''"
        and info = "\<lparr>ci_socket = 1, ci_name = ''alice'', ci_pid = 10\<rparr>"]
      disconnect_teardown [where s = anonymous_disconnect and c = 1 and broken = "{}" and args = "[]"]
    by simp
qed

text \<open>
  C2 as claimed fails twice. Connection 1 registers as alice and subscribes to
  \<open>news\<close>; after end of stream on it, the session and the subscription are still
  there and a PUBLISH to \<open>news\<close> is written to its socket. And a DISCONNECT from a
  connection that subscribed without a session leaves its subscription in place.
\<close>

theorem disconnect_teardown_counterexample:
  "map_of (connected_clients alice_eof) 1 = Some \<lparr>ci_socket = 1, ci_name = ''alice'', ci_pid = 10\<rparr>
   \<and> subscribers_of ''news'' alice_eof = [1]
   \<and> sent_to 1 (snd (handle_publish {} 2 ''news hi'' alice_eof)) =
        sent_to 1 alice_eof @ [''[Message] Topic: news Data: hi'' @ [newline]]
   \<and> subscribers_of ''news'' anonymous_disconnect = [1]
   \<and> sent_to 1 (snd (handle_publish {} 2 ''news hi'' anonymous_disconnect)) =
        sent_to 1 anonymous_disconnect @ [''[Message] Topic: news Data: hi'' @ [newline]]"
proof -
  have "map_of (connected_clients alice_eof) 1 =
          Some \<lparr>ci_socket = 1, ci_name = ''alice'', ci_pid = 10\<rparr>" by code_simp
  moreover have "subscribers_of ''news'' alice_eof = [1]" by code_simp
  moreover have "sent_to 1 (snd (handle_publish {} 2 ''news hi'' alice_eof)) =
        sent_to 1 alice_eof @ [''[Message] Topic: news Data: hi'' @ [newline]]" by code_simp
  moreover have "subscribers_of ''news'' anonymous_disconnect = [1]" by code_simp
  moreover have "sent_to 1 (snd (handle_publish {} 2 ''news hi'' anonymous_disconnect)) =
        sent_to 1 anonymous_disconnect @ [''[Message] Topic: news Data: hi'' @ [newline]]"
    by code_simp
  ultimately show ?thesis by blast
qed

section \<open>The fan-out when a write fails\<close>

text \<open>
  C1 against the code. The topic \<open>news\<close> has the subscribers 1, 2 and 3, and the write
  to 1 fails. The catch block erases 1 from the vector that the loop is walking, so the
  loop's next slot holds 3: subscriber 3 gets the message, subscriber 2 is passed over,
  and the third step reads behind the end of the shortened vector.
\<close>

theorem publish_skips_after_failed_send:
  "subscribers_of ''news'' three_subscribers = [1, 2, 3]
   \<and> fst (handle_publish {1} 4 ''news hello'' three_subscribers) = Undefined
   \<and> subscribers_of ''news'' (snd (handle_publish {1} 4 ''news hello'' three_subscribers)) = [2, 3]
   \<and> sent_to 3 (snd (handle_publish {1} 4 ''news hello'' three_subscribers)) =
        sent_to 3 three_subscribers @ [''[Message] Topic: news Data: hello'' @ [newline]]
   \<and> sent_to 2 (snd (handle_publish {1} 4 ''news hello'' three_subscribers)) =
        sent_to 2 three_subscribers"
proof -
  have "subscribers_of ''news'' three_subscribers = [1, 2, 3]" by code_simp
  moreover have "fst (handle_publish {1} 4 ''news hello'' three_subscribers) = Undefined"
    by code_simp
  moreover have
    "subscribers_of ''news'' (snd (handle_publish {1} 4 ''news hello'' three_subscribers)) = [2, 3]"
    by code_simp
  moreover have "sent_to 3 (snd (handle_publish {1} 4 ''news hello'' three_subscribers)) =
        sent_to 3 three_subscribers @ [''[Message] Topic: news Data: hello'' @ [newline]]"
    by code_simp
  moreover have "sent_to 2 (snd (handle_publish {1} 4 ''news hello'' three_subscribers)) =
        sent_to 2 three_subscribers"
    by code_simp
  ultimately show ?thesis by blast
qed

section \<open>Locks\<close>

text \<open>
  C9 against the code. \<^verbatim>\<open>handle_subscribe\<close> holds only \<^verbatim>\<open>topic_mutex\<close> when it calls
  \<^verbatim>\<open>get_client_metadata\<close>, which reads \<^verbatim>\<open>connected_clients\<close>: that access is not under
  \<^verbatim>\<open>client_mutex\<close>. \<^verbatim>\<open>handle_disconnect\<close>, which takes \<^verbatim>\<open>client_mutex\<close> first and
  \<^verbatim>\<open>topic_mutex\<close> inside it, keeps the discipline.
\<close>

theorem subscribe_reads_clients_unlocked:
  "events (snd (handle_subscribe {} 1 ''news'' init)) =
     [Acquire Topic_mutex, Access Topic_subscribers, Access Connected_clients, Release Topic_mutex]
   \<and> \<not> guarded [] (events (snd (handle_subscribe {} 1 ''news'' init)))
   \<and> guarded [] (events (snd (handle_disconnect {} 1 [] bob_once)))"
proof -
  have "events (snd (handle_subscribe {} 1 ''news'' init)) =
     [Acquire Topic_mutex, Access Topic_subscribers, Access Connected_clients, Release Topic_mutex]"
    by code_simp
  moreover have "\<not> guarded [] (events (snd (handle_subscribe {} 1 ''news'' init)))" by code_simp
  moreover have "guarded [] (events (snd (handle_disconnect {} 1 [] bob_once)))" by code_simp
  ultimately show ?thesis by blast
qed

section \<open>The read loop takes each read for one command\<close>

lemma commands_append: "commands (es @ es') = commands es @ commands es'"
  by (induction es rule: commands.induct) simp_all

lemma commands_lock_guard:
  "commands (events (snd (lock_guard m body s))) = commands (events (snd (body (acquire m s))))"
  by (auto simp: lock_guard_def release_def commands_append split: prod.splits outcome.splits)

lemma commands_steps:
  "commands (events (acquire m s)) = commands (events s)"
  "commands (events (release m s)) = commands (events s)"
  "commands (events (touch r s)) = commands (events s)"
  "commands (events (get_client_metadata c s)) = commands (events s)"
  by (simp_all add: step_defs commands_append)

lemma commands_fan_out:
  "commands (events (snd (fan_out broken t msg k pos s))) = commands (events s)"
proof (induction k arbitrary: pos s)
  case 0
  then show ?case by simp
next
  case (Suc k)
  show ?case
    by (simp add: Suc.IH send_message_def touch_def commands_append Let_def)
qed

lemma commands_connect:
  "commands (events (snd (handle_connect broken c args s))) = commands (events s)"
  by (simp add: handle_connect_def commands_lock_guard send_message_fields Let_def
      commands_steps step_defs commands_append split: option.splits)

lemma commands_disconnect:
  "commands (events (snd (handle_disconnect broken c args s))) = commands (events s)"
  by (simp add: handle_disconnect_def commands_lock_guard send_message_fields Let_def
      step_defs commands_append split: option.splits)

lemma commands_subscribe:
  "commands (events (snd (handle_subscribe broken c args s))) = commands (events s)"
  by (simp add: handle_subscribe_def commands_lock_guard send_message_fields Let_def
      step_defs commands_append split: option.splits)

lemma commands_unsubscribe:
  "commands (events (snd (handle_unsubscribe broken c args s))) = commands (events s)"
  by (simp add: handle_unsubscribe_def commands_lock_guard send_message_fields Let_def
      step_defs commands_append split: option.splits)

lemma commands_publish:
  "commands (events (snd (handle_publish broken c args s))) = commands (events s)"
  by (simp add: handle_publish_def commands_lock_guard send_message_fields Let_def
      commands_fan_out step_defs commands_append split: option.splits)

lemma handler_cases:
  assumes "map_of command_handlers command = Some handler"
  shows "handler = handle_connect \<or> handler = handle_disconnect \<or> handler = handle_subscribe
       \<or> handler = handle_unsubscribe \<or> handler = handle_publish"
  using assms by (auto simp: command_handlers_def split: if_splits)

lemma commands_dispatch:
  "commands (events (snd (dispatch broken c command args s))) =
     commands (events s) @ [(command, args)]"
proof (cases "map_of command_handlers command")
  case None
  then show ?thesis
    by (simp add: dispatch_def Let_def send_message_fields commands_append)
next
  case (Some handler)
  with handler_cases [OF Some] show ?thesis
    by (auto simp: dispatch_def Let_def commands_connect commands_disconnect commands_subscribe
        commands_unsubscribe commands_publish commands_append)
qed

lemma fan_out_returns:
  "k + pos \<le> length (subscribers_of t s) \<Longrightarrow> fst (fan_out {} t msg k pos s) = Returned"
proof (induction k arbitrary: pos s)
  case 0
  then show ?case by simp
next
  case (Suc k)
  let ?s1 = "s\<lparr>wire := wire s @ [(subscribers_of t s ! pos, msg @ [newline])]\<rparr>"
  have "subscribers_of t ?s1 = subscribers_of t s" by (simp add: subscribers_of_def)
  then have "k + Suc pos \<le> length (subscribers_of t ?s1)" using Suc.prems by simp
  from Suc.IH [OF this] show ?case
    using Suc.prems by (simp add: send_message_def)
qed

lemma returns_connect: "fst (handle_connect {} c args s) = Returned"
  by (simp add: handle_connect_def lock_guard_fields send_message_fields Let_def split: option.splits)

lemma returns_disconnect: "fst (handle_disconnect {} c args s) = Returned"
  by (simp add: handle_disconnect_def lock_guard_fields send_message_fields Let_def split: option.splits)

lemma returns_subscribe: "fst (handle_subscribe {} c args s) = Returned"
  by (simp add: handle_subscribe_def lock_guard_fields send_message_fields Let_def split: option.splits)

lemma returns_unsubscribe: "fst (handle_unsubscribe {} c args s) = Returned"
  by (simp add: handle_unsubscribe_def lock_guard_fields send_message_fields Let_def split: option.splits)

lemma returns_publish: "fst (handle_publish {} c args s) = Returned"
  by (simp add: handle_publish_def lock_guard_fields send_message_fields Let_def fan_out_returns
      split: option.splits)

lemma returns_dispatch: "fst (dispatch {} c command args s) = Returned"
proof (cases "map_of command_handlers command")
  case None
  then show ?thesis by (simp add: dispatch_def Let_def send_message_fields)
next
  case (Some handler)
  with handler_cases [OF Some] show ?thesis
    by (auto simp: dispatch_def Let_def returns_connect returns_disconnect returns_subscribe
        returns_unsubscribe returns_publish)
qed

lemma commands_client_handler:
  "commands (events (snd (client_handler {} c (map Data chunks) s))) =
     commands (events s) @ map (\<lambda>chunk. split_command (erase_newlines chunk)) chunks"
proof (induction chunks arbitrary: s)
  case Nil
  then show ?case by simp
next
  case (Cons chunk chunks)
  let ?command = "fst (split_command (erase_newlines chunk))"
  let ?args = "snd (split_command (erase_newlines chunk))"
  obtain r s1 where d: "dispatch {} c ?command ?args s = (r, s1)" by (cases "dispatch {} c ?command ?args s")
  have r: "r = Returned" using returns_dispatch [of c ?command ?args s] d by simp
  have "commands (events s1) = commands (events s) @ [(?command, ?args)]"
    using commands_dispatch [of "{}" c ?command ?args s] d by simp
  then show ?case
    using d r Cons.IH [of s1] by (simp add: Let_def)
qed

lemma reading_client_handler: "fst (client_handler {} c (map Data chunks) s) = Reading"
proof (induction chunks arbitrary: s)
  case Nil
  then show ?case by simp
next
  case (Cons chunk chunks)
  let ?command = "fst (split_command (erase_newlines chunk))"
  let ?args = "snd (split_command (erase_newlines chunk))"
  obtain r s1 where d: "dispatch {} c ?command ?args s = (r, s1)" by (cases "dispatch {} c ?command ?args s")
  have r: "r = Returned" using returns_dispatch [of c ?command ?args s] d by simp
  show ?case
    using d r Cons.IH [of s1] by (simp add: Let_def)
qed

lemma erase_newlines_line: "newline \<notin> set line \<Longrightarrow> erase_newlines (line @ [newline]) = line"
  by (induction line) (auto simp: erase_newlines_def)

lemma commands_client_handler_prefix:
  "\<exists>n\<le>length chunks.
     commands (events (snd (client_handler broken c (map Data chunks) s))) =
       commands (events s) @ map (\<lambda>chunk. split_command (erase_newlines chunk)) (take n chunks)"
proof (induction chunks arbitrary: s)
  case Nil
  then show ?case by simp
next
  case (Cons chunk chunks)
  let ?f = "\<lambda>chunk. split_command (erase_newlines chunk)"
  let ?command = "fst (?f chunk)"
  let ?args = "snd (?f chunk)"
  obtain r s1 where d: "dispatch broken c ?command ?args s = (r, s1)"
    by (cases "dispatch broken c ?command ?args s")
  have s1: "commands (events s1) = commands (events s) @ [?f chunk]"
    using commands_dispatch [of broken c ?command ?args s] d by simp
  show ?case
  proof (cases r)
    case Returned
    obtain n where n: "n \<le> length chunks"
      "commands (events (snd (client_handler broken c (map Data chunks) s1))) =
         commands (events s1) @ map ?f (take n chunks)"
      using Cons.IH [of s1] by blast
    have "commands (events (snd (client_handler broken c (map Data (chunk # chunks)) s))) =
            commands (events s) @ map ?f (take (Suc n) (chunk # chunks))"
      using d Returned n(2) s1 by (simp add: Let_def)
    moreover have "Suc n \<le> length (chunk # chunks)" using n(1) by simp
    ultimately show ?thesis by blast
  next
    case Threw
    have "commands (events (snd (client_handler broken c (map Data (chunk # chunks)) s))) =
            commands (events s) @ map ?f (take 1 (chunk # chunks))"
      using d Threw s1 by (simp add: Let_def)
    moreover have "1 \<le> length (chunk # chunks)" by simp
    ultimately show ?thesis by blast
  next
    case Undefined
    have "commands (events (snd (client_handler broken c (map Data (chunk # chunks)) s))) =
            commands (events s) @ map ?f (take 1 (chunk # chunks))"
      using d Undefined s1 by (simp add: Let_def)
    moreover have "1 \<le> length (chunk # chunks)" by simp
    ultimately show ?thesis by blast
  qed
qed

text \<open>
  C3, as the code has it. \<^verbatim>\<open>client_handler\<close> takes each read for exactly one command:
  it erases every newline byte from the chunk, cuts the rest at the first space and
  hands that one command to the dispatcher; nothing is kept from one read to the next.
  So when no write fails, the commands dispatched for a sequence of reads are the
  chunks, each treated so, in order, and the thread goes on reading; when writes fail,
  they are the first few of the chunks, each treated so. A chunk that is one line and
  its newline is dispatched as that line.
\<close>

theorem read_loop_one_command_per_read:
  "fst (client_handler {} socket (map Data chunks) s) = Reading
   \<and> commands (events (snd (client_handler {} socket (map Data chunks) s))) =
       commands (events s) @ map (\<lambda>chunk. split_command (erase_newlines chunk)) chunks
   \<and> (\<exists>n\<le>length chunks.
        commands (events (snd (client_handler broken socket (map Data chunks) s))) =
          commands (events s)
            @ map (\<lambda>chunk. split_command (erase_newlines chunk)) (take n chunks))
   \<and> (newline \<notin> set line \<longrightarrow> erase_newlines (line @ [newline]) = line)"
  using reading_client_handler commands_client_handler commands_client_handler_prefix
    erase_newlines_line by blast

theorem read_loop_one_command_per_read_witness:
  "newline \<notin> set ''PUBLISH news hi''
   \<and> commands (events (snd (client_handler {} 1 (map Data [''PUBLISH news hi'' @ [newline]]) init)))
       = [(''PUBLISH'', ''news hi'')]"
proof -
  have a: "newline \<notin> set ''PUBLISH news hi''" by (simp add: newline_def)
  have b: "split_command ''PUBLISH news hi'' = (''PUBLISH'', ''news hi'')" by code_simp
  note t = read_loop_one_command_per_read
      [where socket = 1 and chunks = "[''PUBLISH news hi'' @ [newline]]" and s = init
         and line = "''PUBLISH news hi''"]
  have c: "erase_newlines (''PUBLISH news hi'' @ [newline]) = ''PUBLISH news hi''"
    using t a by blast
  have "commands (events (snd (client_handler {} 1 (map Data [''PUBLISH news hi'' @ [newline]]) init)))
        = commands (events init)
            @ map (\<lambda>chunk. split_command (erase_newlines chunk)) [''PUBLISH news hi'' @ [newline]]"
    using t by blast
  also have "\<dots> = [(''PUBLISH'', ''news hi'')]"
    unfolding list.map c b by (simp add: init_def)
  finally show ?thesis using a by blast
qed

text \<open>
  C3 as claimed fails. The line \<open>SUBSCRIBE news\<close> arriving in two reads is dispatched
  as the two commands \<open>SUBSCRIBE ne\<close> and \<open>ws\<close>, and subscribes to the topic \<open>ne\<close>;
  two lines arriving in one read are dispatched as one command, whose argument is
  rejected as a topic name.
\<close>

theorem read_loop_framing_counterexample:
  "commands (events line_in_one_read) = [(''SUBSCRIBE'', ''news'')]
   \<and> topic_subscribers line_in_one_read = [(''news'', [1])]
   \<and> commands (events line_in_two_reads) = [(''SUBSCRIBE'', ''ne''), (''ws'', [])]
   \<and> topic_subscribers line_in_two_reads = [(''ne'', [1])]
   \<and> commands (events two_lines_in_one_read) = [(''SUBSCRIBE'', ''aSUBSCRIBE b'')]
   \<and> topic_subscribers two_lines_in_one_read = []"
proof -
  have "commands (events line_in_one_read) = [(''SUBSCRIBE'', ''news'')]" by code_simp
  moreover have "topic_subscribers line_in_one_read = [(''news'', [1])]" by code_simp
  moreover have "commands (events line_in_two_reads) = [(''SUBSCRIBE'', ''ne''), (''ws'', [])]"
    by code_simp
  moreover have "topic_subscribers line_in_two_reads = [(''ne'', [1])]" by code_simp
  moreover have "commands (events two_lines_in_one_read) = [(''SUBSCRIBE'', ''aSUBSCRIBE b'')]"
    by code_simp
  moreover have "topic_subscribers two_lines_in_one_read = []" by code_simp
  ultimately show ?thesis by blast
qed

end
